theory Spec2Isabelle
  imports Complex_Main "HOL-Library.Mapping" "HOL-Library.AList_Mapping"
begin

section \<open>Python values, errors and the two external services\<close>

text \<open>
  The repository is three small services around a vector store: the ingestor
  (\<^verbatim>\<open>ingestor/app/main.py\<close>) writes memories, the contextualizer
  (\<^verbatim>\<open>contextualizer/app/*.py\<close>) reads them, and the embed head turns text into a
  vector.  The vector store and the embedding model are external; they appear here as
  the part of the environment the code talks to.
\<close>

datatype pyval = PNone | PInt int | PFloat real | PStr string | PList "pyval list"

type_synonym pydict = "(string, pyval) mapping"
type_synonym vec = "real list"

text \<open>\<^verbatim>\<open>d.update(x)\<close>: the entries of \<open>x\<close> are written into \<open>d\<close>.\<close>

definition dict_update :: "pydict \<Rightarrow> pydict \<Rightarrow> pydict" where
  "dict_update d x = Mapping.combine (\<lambda>old new. new) d x"

text \<open>
  Exceptions as values.  \<open>RequestError\<close> is what \<^verbatim>\<open>requests.post\<close> raises (timeout,
  connection refused), \<open>HTTPError\<close> what \<^verbatim>\<open>raise_for_status\<close> raises, \<open>StorageError\<close>
  whatever the store client raises, \<open>ValidationError\<close> the request model's rejection
  with the offending fields, and \<open>HTTPException status cause\<close> the FastAPI exception
  the endpoints wrap a cause in.
\<close>

datatype error =
    ValidationError "string list"
  | RequestError
  | HTTPError nat
  | KeyError string
  | StorageError
  | HTTPException nat error

text \<open>
  A reply of the embedding service: none at all, or a status code together with the
  \<^verbatim>\<open>"vector"\<close> field of its JSON body when the body has one.
\<close>

datatype embed_reply = NoReply | Reply nat "vec option"

record point =
  point_id :: string
  point_vector :: vec
  point_payload :: pydict

record hit =
  hit_payload :: pydict
  hit_score :: real

text \<open>The distance metrics of the store; the code only ever asks for the cosine.\<close>

datatype distance = Cosine | Euclid | Dot

text \<open>Every call that leaves the process, in the order issued.\<close>

datatype call =
    EmbedPost string
  | GetCollections
  | RecreateCollection string nat distance
  | CreatePayloadIndex string string string
  | Upsert string "point list"
  | UploadPoints string "point list"
  | Search string vec string int

text \<open>
  The environment of a process: its configuration (\<^verbatim>\<open>os.getenv\<close>), the clock
  (\<^verbatim>\<open>int(time.time())\<close>), Python's \<^verbatim>\<open>hash\<close>, the stream of \<^verbatim>\<open>uuid4()\<close> tokens, and
  the behaviour of the two external services: what the embedding service replies to a
  text, which calls the store refuses, and which hits it ranks for a search.
\<close>

record env =
  COLLECTION :: string
  VECTOR_SIZE :: nat
  clock :: int
  py_hash :: "string \<Rightarrow> int"
  uuid4 :: "nat \<Rightarrow> string"
  embed_service :: "string \<Rightarrow> embed_reply"
  store_rejects :: "call \<Rightarrow> bool"
  store_hits :: "vec \<Rightarrow> string \<Rightarrow> int \<Rightarrow> hit list"

text \<open>
  The state the code acts on: the calls issued so far (oldest first), the store's
  collections with their vector size and metric, payload indexes and points, the number of uuid4
  tokens drawn, and whether \<^verbatim>\<open>qdrant_search._client\<close> has been initialised.
\<close>

record world =
  calls :: "call list"
  collections :: "(string \<times> nat \<times> distance) list"
  indexes :: "(string \<times> string \<times> string) list"
  points :: "(string \<times> point) list"
  uuid_count :: nat
  client_ready :: bool

definition issue :: "call \<Rightarrow> world \<Rightarrow> world" where
  "issue c w = w\<lparr>calls := calls w @ [c]\<rparr>"

subsection \<open>The store's primitives\<close>

definition get_collections :: "env \<Rightarrow> world \<Rightarrow> (error + string list) \<times> world" where
  "get_collections e w =
     (let w1 = issue GetCollections w
      in if store_rejects e GetCollections then (Inl StorageError, w1)
         else (Inr (map fst (collections w1)), w1))"

definition recreate_collection ::
    "env \<Rightarrow> string \<Rightarrow> nat \<Rightarrow> distance \<Rightarrow> world \<Rightarrow> (error + unit) \<times> world" where
  "recreate_collection e name vsize metric w =
     (let w1 = issue (RecreateCollection name vsize metric) w
      in if store_rejects e (RecreateCollection name vsize metric) then (Inl StorageError, w1)
         else (Inr (),
               w1\<lparr>collections := (name, vsize, metric) # filter (\<lambda>c. fst c \<noteq> name) (collections w1),
                  indexes := filter (\<lambda>i. fst i \<noteq> name) (indexes w1),
                  points := filter (\<lambda>p. fst p \<noteq> name) (points w1)\<rparr>))"

definition create_payload_index ::
    "env \<Rightarrow> string \<Rightarrow> string \<Rightarrow> string \<Rightarrow> world \<Rightarrow> (error + unit) \<times> world" where
  "create_payload_index e name field schema w =
     (let w1 = issue (CreatePayloadIndex name field schema) w
      in if store_rejects e (CreatePayloadIndex name field schema) then (Inl StorageError, w1)
         else (Inr (), w1\<lparr>indexes := indexes w1 @ [(name, field, schema)]\<rparr>))"

text \<open>Writing a point replaces the point of the same id in that collection, if any.\<close>

definition put_point :: "string \<Rightarrow> point \<Rightarrow> (string \<times> point) list \<Rightarrow> (string \<times> point) list" where
  "put_point name p ps =
     filter (\<lambda>q. \<not> (fst q = name \<and> point_id (snd q) = point_id p)) ps @ [(name, p)]"

fun put_points :: "string \<Rightarrow> point list \<Rightarrow> (string \<times> point) list \<Rightarrow> (string \<times> point) list" where
  "put_points name [] ps = ps"
| "put_points name (p # rest) ps = put_points name rest (put_point name p ps)"

definition upsert :: "env \<Rightarrow> string \<Rightarrow> point list \<Rightarrow> world \<Rightarrow> (error + unit) \<times> world" where
  "upsert e name pts w =
     (let w1 = issue (Upsert name pts) w
      in if store_rejects e (Upsert name pts) then (Inl StorageError, w1)
         else (Inr (), w1\<lparr>points := put_points name pts (points w1)\<rparr>))"

definition upload_points :: "env \<Rightarrow> string \<Rightarrow> point list \<Rightarrow> world \<Rightarrow> (error + unit) \<times> world" where
  "upload_points e name pts w =
     (let w1 = issue (UploadPoints name pts) w
      in if store_rejects e (UploadPoints name pts) then (Inl StorageError, w1)
         else (Inr (), w1\<lparr>points := put_points name pts (points w1)\<rparr>))"

definition search ::
    "env \<Rightarrow> string \<Rightarrow> vec \<Rightarrow> string \<Rightarrow> int \<Rightarrow> world \<Rightarrow> (error + hit list) \<times> world" where
  "search e name vector cid n w =
     (let w1 = issue (Search name vector cid n) w
      in if store_rejects e (Search name vector cid n) then (Inl StorageError, w1)
         else (Inr (store_hits e vector cid n), w1))"

section \<open>The ingestor (\<^verbatim>\<open>ingestor/app/main.py\<close>)\<close>

definition ingestor_ensure_collection :: "env \<Rightarrow> world \<Rightarrow> (error + unit) \<times> world" where
  "ingestor_ensure_collection e w =
     (case get_collections e w of
        (Inl err, w1) \<Rightarrow> (Inl err, w1)
      | (Inr names, w1) \<Rightarrow>
          if COLLECTION e \<notin> set names then
            (case recreate_collection e (COLLECTION e) (VECTOR_SIZE e) Cosine w1 of
               (Inl err, w2) \<Rightarrow> (Inl err, w2)
             | (Inr u, w2) \<Rightarrow>
                 (case create_payload_index e (COLLECTION e) ''conversation_id'' ''keyword'' w2 of
                    (Inl err, w3) \<Rightarrow> (Inl err, w3)
                  | (Inr u, w3) \<Rightarrow> create_payload_index e (COLLECTION e) ''ts'' ''integer'' w3))
          else (Inr (), w1))"

text \<open>
  The request body of \<^verbatim>\<open>POST /memory\<close> before validation (a field may be absent), and
  the \<^verbatim>\<open>Item\<close> model after it.
\<close>

record raw_item =
  raw_text :: "string option"
  raw_conversation_id :: "string option"
  raw_role :: "string option"
  raw_timestamp :: "int option"
  raw_extra_payload :: "pydict option"

record Item =
  item_text :: string
  item_conversation_id :: string
  item_role :: string
  item_timestamp :: "int option"
  item_extra_payload :: "pydict option"

text \<open>The validator \<^verbatim>\<open>_ts\<close>: \<^verbatim>\<open>v or int(time.time())\<close>.\<close>

definition Item_ts :: "env \<Rightarrow> int option \<Rightarrow> int option" where
  "Item_ts e v =
     (case v of None \<Rightarrow> Some (clock e)
      | Some t \<Rightarrow> if t = 0 then Some (clock e) else Some t)"

text \<open>\<^verbatim>\<open>text\<close> and \<^verbatim>\<open>conversation_id\<close> are the two fields declared without a default.\<close>

definition Item_missing :: "raw_item \<Rightarrow> string list" where
  "Item_missing r =
     (if raw_text r = None then [''text''] else []) @
     (if raw_conversation_id r = None then [''conversation_id''] else [])"

definition parse_Item :: "env \<Rightarrow> raw_item \<Rightarrow> error + Item" where
  "parse_Item e r =
     (case (raw_text r, raw_conversation_id r) of
        (Some t, Some c) \<Rightarrow>
          Inr \<lparr>item_text = t, item_conversation_id = c,
               item_role = (case raw_role r of None \<Rightarrow> ''user'' | Some ro \<Rightarrow> ro),
               item_timestamp = Item_ts e (raw_timestamp r),
               item_extra_payload = raw_extra_payload r\<rparr>
      | _ \<Rightarrow> Inl (ValidationError (Item_missing r)))"

fun parse_Batch :: "env \<Rightarrow> raw_item list \<Rightarrow> error + Item list" where
  "parse_Batch e [] = Inr []"
| "parse_Batch e (r # rs) =
     (case (parse_Item e r, parse_Batch e rs) of
        (Inr i, Inr is) \<Rightarrow> Inr (i # is)
      | _ \<Rightarrow> Inl (ValidationError (concat (map Item_missing (r # rs)))))"

text \<open>
  \<^verbatim>\<open>_embed\<close>: one POST per text, in order; \<^verbatim>\<open>.json()["vector"]\<close> with no status check.
  The first failure ends the comprehension.
\<close>

fun ingestor_embed :: "env \<Rightarrow> string list \<Rightarrow> world \<Rightarrow> (error + vec list) \<times> world" where
  "ingestor_embed e [] w = (Inr [], w)"
| "ingestor_embed e (t # ts) w =
     (let w1 = issue (EmbedPost t) w
      in case embed_service e t of
           NoReply \<Rightarrow> (Inl RequestError, w1)
         | Reply status None \<Rightarrow> (Inl (KeyError ''vector''), w1)
         | Reply status (Some v) \<Rightarrow>
             (case ingestor_embed e ts w1 of
                (Inl err, w2) \<Rightarrow> (Inl err, w2)
              | (Inr vs, w2) \<Rightarrow> (Inr (v # vs), w2)))"

text \<open>The payload built in the loop of \<^verbatim>\<open>_store\<close>, then \<^verbatim>\<open>payload.update(extra_payload)\<close>.\<close>

definition ingestor_base_payload :: "Item \<Rightarrow> pydict" where
  "ingestor_base_payload itm =
     Mapping.of_alist
       [(''text'', PStr (item_text itm)),
        (''role'', PStr (item_role itm)),
        (''conversation_id'', PStr (item_conversation_id itm)),
        (''ts'', case item_timestamp itm of None \<Rightarrow> PNone | Some t \<Rightarrow> PInt t)]"

definition ingestor_payload :: "Item \<Rightarrow> pydict" where
  "ingestor_payload itm =
     (case item_extra_payload itm of
        None \<Rightarrow> ingestor_base_payload itm
      | Some x \<Rightarrow> if Mapping.is_empty x then ingestor_base_payload itm
                  else dict_update (ingestor_base_payload itm) x)"

fun ingestor_points :: "env \<Rightarrow> (Item \<times> vec) list \<Rightarrow> world \<Rightarrow> point list \<times> world" where
  "ingestor_points e [] w = ([], w)"
| "ingestor_points e ((itm, v) # rest) w =
     (let p = \<lparr>point_id = uuid4 e (uuid_count w), point_vector = v,
               point_payload = ingestor_payload itm\<rparr>;
          (ps, w') = ingestor_points e rest (w\<lparr>uuid_count := Suc (uuid_count w)\<rparr>)
      in (p # ps, w'))"

text \<open>\<^verbatim>\<open>_store\<close>: every exception inside becomes \<^verbatim>\<open>HTTPException(502)\<close>.\<close>

definition ingestor_store :: "env \<Rightarrow> Item list \<Rightarrow> world \<Rightarrow> (error + unit) \<times> world" where
  "ingestor_store e items w =
     (case ingestor_embed e (map item_text items) w of
        (Inl err, w1) \<Rightarrow> (Inl (HTTPException 502 err), w1)
      | (Inr vectors, w1) \<Rightarrow>
          (let (pts, w2) = ingestor_points e (zip items vectors) w1
           in case upsert e (COLLECTION e) pts w2 of
                (Inl err, w3) \<Rightarrow> (Inl (HTTPException 502 err), w3)
              | (Inr u, w3) \<Rightarrow> (Inr (), w3)))"

text \<open>The two endpoints; the request model is validated before the handler runs.\<close>

definition ingest_one :: "env \<Rightarrow> raw_item \<Rightarrow> world \<Rightarrow> (error + unit) \<times> world" where
  "ingest_one e r w =
     (case parse_Item e r of
        Inl err \<Rightarrow> (Inl err, w)
      | Inr itm \<Rightarrow> ingestor_store e [itm] w)"

definition ingest_batch :: "env \<Rightarrow> raw_item list \<Rightarrow> world \<Rightarrow> (error + nat) \<times> world" where
  "ingest_batch e rs w =
     (case parse_Batch e rs of
        Inl err \<Rightarrow> (Inl err, w)
      | Inr items \<Rightarrow>
          (case ingestor_store e items w of
             (Inl err, w1) \<Rightarrow> (Inl err, w1)
           | (Inr u, w1) \<Rightarrow> (Inr (length items), w1)))"

section \<open>The contextualizer's store wrapper (\<^verbatim>\<open>contextualizer/app/qdrant_client.py\<close>)\<close>

definition DISTANCE :: distance where
  "DISTANCE = Cosine"

definition QdrantMemory_ensure_collection :: "env \<Rightarrow> world \<Rightarrow> (error + unit) \<times> world" where
  "QdrantMemory_ensure_collection e w =
     (case get_collections e w of
        (Inl err, w1) \<Rightarrow> (Inl err, w1)
      | (Inr existing, w1) \<Rightarrow>
          if \<not> list_ex (\<lambda>c. c = COLLECTION e) existing then
            (case recreate_collection e (COLLECTION e) (VECTOR_SIZE e) DISTANCE w1 of
               (Inl err, w2) \<Rightarrow> (Inl err, w2)
             | (Inr u, w2) \<Rightarrow>
                 (case create_payload_index e (COLLECTION e) ''conversation_id'' ''keyword'' w2 of
                    (Inl err, w3) \<Rightarrow> (Inl err, w3)
                  | (Inr u, w3) \<Rightarrow> create_payload_index e (COLLECTION e) ''ts'' ''integer'' w3))
          else (Inr (), w1))"

text \<open>\<^verbatim>\<open>embed\<close>: one POST, \<^verbatim>\<open>raise_for_status()\<close>, then \<^verbatim>\<open>.json()["vector"]\<close>.\<close>

definition QdrantMemory_embed :: "env \<Rightarrow> string \<Rightarrow> world \<Rightarrow> (error + vec) \<times> world" where
  "QdrantMemory_embed e t w =
     (let w1 = issue (EmbedPost t) w
      in case embed_service e t of
           NoReply \<Rightarrow> (Inl RequestError, w1)
         | Reply status body \<Rightarrow>
             if 400 \<le> status \<and> status < 600 then (Inl (HTTPError status), w1)
             else (case body of
                     None \<Rightarrow> (Inl (KeyError ''vector''), w1)
                   | Some v \<Rightarrow> (Inr v, w1)))"

text \<open>Python's \<^verbatim>\<open>str\<close> of an integer, as the f-string of the point id formats it.\<close>

definition digit_char :: "nat \<Rightarrow> char" where
  "digit_char d = char_of (48 + d)"

function str_nat :: "nat \<Rightarrow> string" where
  "str_nat n = (if n < 10 then [digit_char n] else str_nat (n div 10) @ [digit_char (n mod 10)])"
  by pat_completeness auto
termination
  by (relation "measure (\<lambda>n. n)") auto

declare str_nat.simps [simp del]

definition str_int :: "int \<Rightarrow> string" where
  "str_int i = (if i < 0 then CHR ''-'' # str_nat (nat (- i)) else str_nat (nat i))"

definition memory_base_payload :: "string \<Rightarrow> string \<Rightarrow> string \<Rightarrow> int \<Rightarrow> pydict" where
  "memory_base_payload t cid role ts =
     Mapping.of_alist
       [(''text'', PStr t),
        (''role'', PStr role),
        (''conversation_id'', PStr cid),
        (''ts'', PInt ts)]"

definition memory_payload :: "string \<Rightarrow> string \<Rightarrow> string \<Rightarrow> int \<Rightarrow> pydict option \<Rightarrow> pydict" where
  "memory_payload t cid role ts extra_payload =
     (case extra_payload of
        None \<Rightarrow> memory_base_payload t cid role ts
      | Some x \<Rightarrow> if Mapping.is_empty x then memory_base_payload t cid role ts
                  else dict_update (memory_base_payload t cid role ts) x)"

text \<open>The id \<^verbatim>\<open>f"{conversation_id}-{ts}-{role}-{hash(text)}"\<close>.\<close>

definition memory_id :: "env \<Rightarrow> string \<Rightarrow> string \<Rightarrow> string \<Rightarrow> int \<Rightarrow> string" where
  "memory_id e t cid role ts =
     cid @ ''-'' @ str_int ts @ ''-'' @ role @ ''-'' @ str_int (py_hash e t)"

text \<open>\<^verbatim>\<open>ts = ts or int(time.time())\<close>.\<close>

definition memory_ts :: "env \<Rightarrow> int option \<Rightarrow> int" where
  "memory_ts e ts = (case ts of None \<Rightarrow> clock e | Some t \<Rightarrow> if t = 0 then clock e else t)"

definition upsert_memory ::
    "env \<Rightarrow> string \<Rightarrow> string \<Rightarrow> string \<Rightarrow> int option \<Rightarrow> pydict option \<Rightarrow> world
       \<Rightarrow> (error + unit) \<times> world" where
  "upsert_memory e t cid role ts extra_payload w =
     (let ts1 = memory_ts e ts
      in case QdrantMemory_embed e t w of
           (Inl err, w1) \<Rightarrow> (Inl err, w1)
         | (Inr v, w1) \<Rightarrow>
             upload_points e (COLLECTION e)
               [\<lparr>point_id = memory_id e t cid role ts1, point_vector = v,
                 point_payload = memory_payload t cid role ts1 extra_payload\<rparr>] w1)"



section \<open>Retrieval (\<^verbatim>\<open>contextualizer/app/qdrant_search.py\<close> and \<^verbatim>\<open>main.py\<close>)\<close>

definition client_lazy :: "world \<Rightarrow> world" where
  "client_lazy w = (if \<not> client_ready w then w\<lparr>client_ready := True\<rparr> else w)"

text \<open>
  The projection of \<^verbatim>\<open>top_k\<close>: \<^verbatim>\<open>payload["text"]\<close>, \<^verbatim>\<open>payload.get("role", "unknown")\<close>,
  \<^verbatim>\<open>payload.get("ts")\<close> and the score.
\<close>

definition top_k_entry :: "pyval \<Rightarrow> hit \<Rightarrow> pydict" where
  "top_k_entry t h =
     Mapping.of_alist
       [(''text'', t),
        (''role'', case Mapping.lookup (hit_payload h) ''role'' of
                     None \<Rightarrow> PStr ''unknown'' | Some r \<Rightarrow> r),
        (''timestamp'', case Mapping.lookup (hit_payload h) ''ts'' of
                          None \<Rightarrow> PNone | Some ts \<Rightarrow> ts),
        (''score'', PFloat (hit_score h))]"

fun top_k_project :: "hit list \<Rightarrow> error + pydict list" where
  "top_k_project [] = Inr []"
| "top_k_project (h # hs) =
     (case Mapping.lookup (hit_payload h) ''text'' of
        None \<Rightarrow> Inl (KeyError ''text'')
      | Some t \<Rightarrow>
          (case top_k_project hs of
             Inl err \<Rightarrow> Inl err
           | Inr rest \<Rightarrow> Inr (top_k_entry t h # rest)))"

definition top_k ::
    "env \<Rightarrow> vec \<Rightarrow> string \<Rightarrow> int \<Rightarrow> world \<Rightarrow> (error + pydict list) \<times> world" where
  "top_k e vector cid n w =
     (case search e (COLLECTION e) vector cid n (client_lazy w) of
        (Inl err, w1) \<Rightarrow> (Inl err, w1)
      | (Inr hits, w1) \<Rightarrow> (top_k_project hits, w1))"

text \<open>
  The body of \<^verbatim>\<open>POST /context\<close> before validation, and the \<^verbatim>\<open>ContextReq\<close> model:
  \<^verbatim>\<open>conversation_id\<close> required, \<^verbatim>\<open>query_vector\<close> required with \<^verbatim>\<open>min_items=3\<close>,
  \<^verbatim>\<open>k\<close> with default 6 and \<^verbatim>\<open>gt=0, le=30\<close>.
\<close>

record raw_ContextReq =
  raw_ctx_conversation_id :: "string option"
  raw_query_vector :: "vec option"
  raw_k :: "int option"

record ContextReq =
  ctx_conversation_id :: string
  ctx_query_vector :: vec
  ctx_k :: int

definition ContextReq_errors :: "raw_ContextReq \<Rightarrow> string list" where
  "ContextReq_errors r =
     (if raw_ctx_conversation_id r = None then [''conversation_id''] else []) @
     (case raw_query_vector r of
        None \<Rightarrow> [''query_vector'']
      | Some v \<Rightarrow> if length v < 3 then [''query_vector''] else []) @
     (case raw_k r of
        None \<Rightarrow> []
      | Some n \<Rightarrow> if 0 < n \<and> n \<le> 30 then [] else [''k''])"

definition parse_ContextReq :: "raw_ContextReq \<Rightarrow> error + ContextReq" where
  "parse_ContextReq r =
     (case (raw_ctx_conversation_id r, raw_query_vector r) of
        (Some c, Some v) \<Rightarrow>
          if ContextReq_errors r = [] then
            Inr \<lparr>ctx_conversation_id = c, ctx_query_vector = v,
                 ctx_k = (case raw_k r of None \<Rightarrow> 6 | Some n \<Rightarrow> n)\<rparr>
          else Inl (ValidationError (ContextReq_errors r))
      | _ \<Rightarrow> Inl (ValidationError (ContextReq_errors r)))"

text \<open>
  The endpoint: the hits with the time of the answer, and every exception of \<^verbatim>\<open>top_k\<close>
  as \<^verbatim>\<open>HTTPException(500)\<close>.
\<close>

definition post_context ::
    "env \<Rightarrow> raw_ContextReq \<Rightarrow> world \<Rightarrow> (error + pydict list \<times> int) \<times> world" where
  "post_context e r w =
     (case parse_ContextReq r of
        Inl err \<Rightarrow> (Inl err, w)
      | Inr req \<Rightarrow>
          (case top_k e (ctx_query_vector req) (ctx_conversation_id req) (ctx_k req) w of
             (Inl err, w1) \<Rightarrow> (Inl (HTTPException 500 err), w1)
           | (Inr hits, w1) \<Rightarrow> (Inr (hits, clock e), w1)))"

section \<open>An example deployment\<close>

text \<open>
  Concrete inputs on which the theorems below are exercised: an environment whose
  embedding service answers every text but one, a store that accepts every call, and
  three hits as a store may return them (a payload as the writer builds it, one with
  only a text, one without a text).
\<close>

definition example_uuid4 :: "nat \<Rightarrow> string" where
  "example_uuid4 n = ''uuid-'' @ replicate n (CHR ''i'')"

definition example_hash :: "string \<Rightarrow> int" where
  "example_hash s = int (length s)"

definition example_embed :: "string \<Rightarrow> embed_reply" where
  "example_embed t =
     (if t = ''unembeddable'' then Reply 500 None else Reply 200 (Some [1 / 10, 2 / 10, 3 / 10]))"

definition accept_all :: "call \<Rightarrow> bool" where
  "accept_all c = False"

definition unreachable :: "call \<Rightarrow> bool" where
  "unreachable c = True"

definition no_hits :: "vec \<Rightarrow> string \<Rightarrow> int \<Rightarrow> hit list" where
  "no_hits v cid n = []"

definition example_env :: env where
  "example_env =
     \<lparr>COLLECTION = ''memories'', VECTOR_SIZE = 384, clock = 1700000000,
      py_hash = example_hash, uuid4 = example_uuid4, embed_service = example_embed,
      store_rejects = accept_all, store_hits = no_hits\<rparr>"

definition fresh_world :: world where
  "fresh_world =
     \<lparr>calls = [], collections = [], indexes = [], points = [], uuid_count = 0,
      client_ready = False\<rparr>"

definition example_raw :: raw_item where
  "example_raw =
     \<lparr>raw_text = Some ''hello'', raw_conversation_id = Some ''c1'', raw_role = None,
      raw_timestamp = Some 5, raw_extra_payload = None\<rparr>"

definition example_item :: Item where
  "example_item =
     \<lparr>item_text = ''hello'', item_conversation_id = ''c1'', item_role = ''user'',
      item_timestamp = Some 5, item_extra_payload = None\<rparr>"

definition unembeddable_item :: Item where
  "unembeddable_item =
     \<lparr>item_text = ''unembeddable'', item_conversation_id = ''c1'', item_role = ''user'',
      item_timestamp = Some 6, item_extra_payload = None\<rparr>"

definition clashing_extra :: pydict where
  "clashing_extra = Mapping.of_alist [(''text'', PStr ''overwritten''), (''topic'', PStr ''greeting'')]"

definition clashing_item :: Item where
  "clashing_item =
     \<lparr>item_text = ''hello'', item_conversation_id = ''c1'', item_role = ''user'',
      item_timestamp = Some 5, item_extra_payload = Some clashing_extra\<rparr>"

definition example_request :: raw_ContextReq where
  "example_request =
     \<lparr>raw_ctx_conversation_id = Some ''c1'', raw_query_vector = Some [1 / 10, 2 / 10, 3 / 10],
      raw_k = Some 6\<rparr>"

definition hit_full :: hit where
  "hit_full =
     \<lparr>hit_payload = Mapping.of_alist [(''text'', PStr ''hello''), (''role'', PStr ''user''),
                     (''conversation_id'', PStr ''c1''), (''ts'', PInt 5)],
      hit_score = 1\<rparr>"

definition hit_bare :: hit where
  "hit_bare = \<lparr>hit_payload = Mapping.of_alist [(''text'', PStr ''note'')], hit_score = 1 / 2\<rparr>"

definition hit_no_text :: hit where
  "hit_no_text = \<lparr>hit_payload = Mapping.of_alist [(''role'', PStr ''user'')], hit_score = 1 / 4\<rparr>"

definition two_hits :: "vec \<Rightarrow> string \<Rightarrow> int \<Rightarrow> hit list" where
  "two_hits v cid n = [hit_full, hit_bare]"

definition hits_without_text :: "vec \<Rightarrow> string \<Rightarrow> int \<Rightarrow> hit list" where
  "hits_without_text v cid n = [hit_full, hit_no_text]"

definition one_hit_without_text :: "vec \<Rightarrow> string \<Rightarrow> int \<Rightarrow> hit list" where
  "one_hit_without_text v cid n = [hit_no_text]"




definition stored_field :: "string \<Rightarrow> world \<Rightarrow> pyval option list" where
  "stored_field key w = map (\<lambda>p. Mapping.lookup (point_payload (snd p)) key) (points w)"

text \<open>The vector the embedding service yields for a text, if it yields one.\<close>

definition embed_vector :: "env \<Rightarrow> string \<Rightarrow> vec option" where
  "embed_vector e t = (case embed_service e t of NoReply \<Rightarrow> None | Reply status body \<Rightarrow> body)"

section \<open>Basic facts about the writer\<close>

lemma lookup_dict_update:
  "Mapping.lookup (dict_update d x) k =
     (case Mapping.lookup x k of Some v \<Rightarrow> Some v | None \<Rightarrow> Mapping.lookup d k)"
  by (cases "Mapping.lookup d k"; cases "Mapping.lookup x k")
     (simp_all add: dict_update_def lookup_combine)

lemma issue_calls: "calls (issue c w) = calls w @ [c]"
  by (simp add: issue_def)

lemma ingestor_embed_step_fail:
  "embed_vector e t = None \<Longrightarrow>
     \<exists>err. ingestor_embed e (t # ts) w = (Inl err, issue (EmbedPost t) w)"
  by (cases "embed_service e t") (auto simp: embed_vector_def)

lemma ingestor_embed_step_ok:
  "embed_vector e t = Some v \<Longrightarrow>
     ingestor_embed e (t # ts) w =
       (case ingestor_embed e ts (issue (EmbedPost t) w) of
          (Inl err, w2) \<Rightarrow> (Inl err, w2)
        | (Inr vs, w2) \<Rightarrow> (Inr (v # vs), w2))"
  by (cases "embed_service e t") (auto simp: embed_vector_def)

lemma ingestor_embed_world:
  "ingestor_embed e ts w = (r, w') \<Longrightarrow>
     \<exists>n\<le>length ts. w' = w\<lparr>calls := calls w @ map EmbedPost (take n ts)\<rparr>"
proof (induction ts arbitrary: w r w')
  case Nil
  then show ?case by simp
next
  case (Cons t ts)
  show ?case
  proof (cases "embed_vector e t")
    case None
    from ingestor_embed_step_fail[OF None, of ts w] Cons.prems
    have "w' = issue (EmbedPost t) w" by auto
    then have "w' = w\<lparr>calls := calls w @ map EmbedPost (take 1 (t # ts))\<rparr>"
      by (simp add: issue_def)
    then show ?thesis by (intro exI[of _ 1]) simp
  next
    case (Some v)
    obtain r2 w2 where rec: "ingestor_embed e ts (issue (EmbedPost t) w) = (r2, w2)"
      by (cases "ingestor_embed e ts (issue (EmbedPost t) w)")
    with Cons.prems ingestor_embed_step_ok[OF Some, of ts w] have "w' = w2"
      by (cases r2) auto
    moreover from Cons.IH[OF rec] obtain n where
      n: "n \<le> length ts"
         "w2 = (issue (EmbedPost t) w)\<lparr>calls := calls (issue (EmbedPost t) w) @ map EmbedPost (take n ts)\<rparr>"
      by blast
    ultimately have "w' = w\<lparr>calls := calls w @ map EmbedPost (take (Suc n) (t # ts))\<rparr>"
      by (simp add: issue_def)
    with n(1) show ?thesis by (intro exI[of _ "Suc n"]) simp
  qed
qed

lemma ingestor_embed_ok:
  "ingestor_embed e ts w = (Inr vs, w') \<Longrightarrow>
     map Some vs = map (embed_vector e) ts \<and> w' = w\<lparr>calls := calls w @ map EmbedPost ts\<rparr>"
proof (induction ts arbitrary: w vs w')
  case Nil
  then show ?case by simp
next
  case (Cons t ts)
  obtain r2 w2 where rec: "ingestor_embed e ts (issue (EmbedPost t) w) = (r2, w2)"
    by (cases "ingestor_embed e ts (issue (EmbedPost t) w)")
  have "embed_vector e t \<noteq> None"
    using ingestor_embed_step_fail[of e t ts w] Cons.prems by auto
  then obtain v where v: "embed_vector e t = Some v" by blast
  from Cons.prems rec ingestor_embed_step_ok[OF v, of ts w] obtain vs2 where
    r2: "r2 = Inr vs2" and vs: "vs = v # vs2" and w': "w' = w2"
    by (cases r2) auto
  from Cons.IH[OF rec[unfolded r2]] have
    "map Some vs2 = map (embed_vector e) ts"
    "w2 = (issue (EmbedPost t) w)\<lparr>calls := calls (issue (EmbedPost t) w) @ map EmbedPost ts\<rparr>"
    by simp_all
  with v vs w' show ?case by (simp add: issue_def)
qed

lemma ingestor_embed_fails:
  "ingestor_embed e ts w = (Inl err, w') \<Longrightarrow> \<exists>t\<in>set ts. embed_vector e t = None"
proof (induction ts arbitrary: w err w')
  case Nil
  then show ?case by simp
next
  case (Cons t ts)
  show ?case
  proof (cases "embed_vector e t")
    case None
    then show ?thesis by simp
  next
    case (Some v)
    obtain r2 w2 where rec: "ingestor_embed e ts (issue (EmbedPost t) w) = (r2, w2)"
      by (cases "ingestor_embed e ts (issue (EmbedPost t) w)")
    with Cons.prems ingestor_embed_step_ok[OF Some, of ts w] have "r2 = Inl err"
      by (cases r2) auto
    with Cons.IH rec show ?thesis by auto
  qed
qed

lemma ingestor_points_spec:
  "ingestor_points e ivs w = (pts, w') \<Longrightarrow>
     w' = w\<lparr>uuid_count := uuid_count w + length ivs\<rparr> \<and>
     map point_id pts = map (uuid4 e) [uuid_count w ..< uuid_count w + length ivs] \<and>
     map point_payload pts = map (\<lambda>iv. ingestor_payload (fst iv)) ivs \<and>
     map point_vector pts = map snd ivs"
proof (induction ivs arbitrary: w pts w')
  case Nil
  then show ?case by simp
next
  case (Cons iv ivs)
  obtain itm v where iv: "iv = (itm, v)" by (cases iv)
  obtain ps w2 where rec:
    "ingestor_points e ivs (w\<lparr>uuid_count := Suc (uuid_count w)\<rparr>) = (ps, w2)"
    by (cases "ingestor_points e ivs (w\<lparr>uuid_count := Suc (uuid_count w)\<rparr>)")
  from Cons.prems iv rec have pts: "pts = \<lparr>point_id = uuid4 e (uuid_count w), point_vector = v,
               point_payload = ingestor_payload itm\<rparr> # ps" and w': "w' = w2"
    by simp_all
  have upt: "[uuid_count w ..< uuid_count w + length (iv # ivs)] =
      uuid_count w # [Suc (uuid_count w) ..< Suc (uuid_count w) + length ivs]"
    by (subst upt_conv_Cons) simp_all
  from Cons.IH[OF rec] pts w' iv show ?case
    unfolding upt by simp
qed

lemma ingestor_embed_single_fails:
  "isl (fst (ingestor_embed e [t] w)) \<longleftrightarrow> embed_vector e t = None"
  by (cases "embed_service e t") (auto simp: embed_vector_def Let_def split: option.splits)

lemma upsert_world:
  "upsert e name pts w = (r, w') \<Longrightarrow> calls w' = calls w @ [Upsert name pts]"
  by (auto simp: upsert_def issue_def Let_def split: if_splits)

lemma upsert_success:
  "upsert e name pts w = (Inr u, w') \<Longrightarrow>
     w' = w\<lparr>calls := calls w @ [Upsert name pts], points := put_points name pts (points w)\<rparr>"
  by (auto simp: upsert_def issue_def Let_def split: if_splits)

lemma ingestor_store_success:
  assumes "ingestor_store e items w = (Inr u, w')"
  shows "\<exists>pts. length pts = length items \<and>
           map point_id pts = map (uuid4 e) [uuid_count w ..< uuid_count w + length items] \<and>
           map point_payload pts = map ingestor_payload items \<and>
           w' = w\<lparr>calls := calls w @ map EmbedPost (map item_text items) @ [Upsert (COLLECTION e) pts],
                  uuid_count := uuid_count w + length items,
                  points := put_points (COLLECTION e) pts (points w)\<rparr>"
proof -
  obtain r w1 where em: "ingestor_embed e (map item_text items) w = (r, w1)"
    by (cases "ingestor_embed e (map item_text items) w")
  from assms em obtain vectors where r: "r = Inr vectors"
    by (cases r) (simp_all add: ingestor_store_def)
  from ingestor_embed_ok[OF em[unfolded r]] have
    vs: "map Some vectors = map (embed_vector e) (map item_text items)" and
    w1: "w1 = w\<lparr>calls := calls w @ map EmbedPost (map item_text items)\<rparr>"
    by simp_all
  from vs have len: "length vectors = length items"
    by (metis length_map)
  obtain pts w2 where pw: "ingestor_points e (zip items vectors) w1 = (pts, w2)"
    by (cases "ingestor_points e (zip items vectors) w1")
  from ingestor_points_spec[OF pw] len have
    w2: "w2 = w1\<lparr>uuid_count := uuid_count w1 + length items\<rparr>" and
    ids: "map point_id pts = map (uuid4 e) [uuid_count w1 ..< uuid_count w1 + length items]" and
    pls: "map point_payload pts = map (\<lambda>iv. ingestor_payload (fst iv)) (zip items vectors)"
    by simp_all
  have "map (\<lambda>iv. ingestor_payload (fst iv)) (zip items vectors) =
        map ingestor_payload (map fst (zip items vectors))"
    by simp
  also have "\<dots> = map ingestor_payload items"
    using len by simp
  finally have pls': "map point_payload pts = map ingestor_payload items"
    using pls by simp
  from ids have lp: "length pts = length items"
    by (metis length_map length_upt add_diff_cancel_left')
  obtain r3 w3 where up: "upsert e (COLLECTION e) pts w2 = (r3, w3)"
    by (cases "upsert e (COLLECTION e) pts w2")
  from assms em r pw up have "r3 = Inr u" "w' = w3"
    by (cases r3; simp add: ingestor_store_def)+
  with up have "upsert e (COLLECTION e) pts w2 = (Inr u, w')" by simp
  from upsert_success[OF this] w2 w1 have
    "w' = w\<lparr>calls := calls w @ map EmbedPost (map item_text items) @ [Upsert (COLLECTION e) pts],
                  uuid_count := uuid_count w + length items,
                  points := put_points (COLLECTION e) pts (points w)\<rparr>"
    by simp
  with lp ids pls' w1 show ?thesis by auto
qed

lemma QdrantMemory_embed_world:
  "QdrantMemory_embed e t w = (r, w') \<Longrightarrow> w' = w\<lparr>calls := calls w @ [EmbedPost t]\<rparr>"
  by (auto simp: QdrantMemory_embed_def issue_def Let_def
           split: embed_reply.splits option.splits if_splits)

lemma upload_points_success:
  "upload_points e name pts w = (Inr u, w') \<Longrightarrow>
     w' = w\<lparr>calls := calls w @ [UploadPoints name pts], points := put_points name pts (points w)\<rparr>"
  by (auto simp: upload_points_def issue_def Let_def split: if_splits)

lemma upsert_memory_success:
  assumes "upsert_memory e t cid role ts x w = (Inr u, w')"
  shows "\<exists>v. w' = w\<lparr>calls := calls w @ [EmbedPost t,
                     UploadPoints (COLLECTION e)
                       [\<lparr>point_id = memory_id e t cid role (memory_ts e ts), point_vector = v,
                         point_payload = memory_payload t cid role (memory_ts e ts) x\<rparr>]],
                  points := put_points (COLLECTION e)
                       [\<lparr>point_id = memory_id e t cid role (memory_ts e ts), point_vector = v,
                         point_payload = memory_payload t cid role (memory_ts e ts) x\<rparr>] (points w)\<rparr>"
proof -
  obtain r w1 where em: "QdrantMemory_embed e t w = (r, w1)"
    by (cases "QdrantMemory_embed e t w")
  from assms em obtain v where r: "r = Inr v"
    by (cases r) (simp_all add: upsert_memory_def)
  from assms em r have "upload_points e (COLLECTION e)
               [\<lparr>point_id = memory_id e t cid role (memory_ts e ts), point_vector = v,
                 point_payload = memory_payload t cid role (memory_ts e ts) x\<rparr>] w1 = (Inr u, w')"
    by (simp add: upsert_memory_def Let_def)
  from upload_points_success[OF this] QdrantMemory_embed_world[OF em] show ?thesis
    by (intro exI[of _ v]) simp
qed

lemma is_empty_lookup: "Mapping.is_empty x \<Longrightarrow> Mapping.lookup x k = None"
  unfolding Mapping.is_empty_def keys_dom_lookup by auto

lemma ingestor_payload_lookup:
  "Mapping.lookup (ingestor_payload itm) k =
     (case item_extra_payload itm of
        None \<Rightarrow> Mapping.lookup (ingestor_base_payload itm) k
      | Some x \<Rightarrow> (case Mapping.lookup x k of
                     Some v \<Rightarrow> Some v
                   | None \<Rightarrow> Mapping.lookup (ingestor_base_payload itm) k))"
proof (cases "item_extra_payload itm")
  case None
  then show ?thesis by (simp add: ingestor_payload_def)
next
  case (Some x)
  show ?thesis
  proof (cases "Mapping.is_empty x")
    case True
    then have "Mapping.lookup x k = None"
      by (rule is_empty_lookup)
    with Some True show ?thesis by (simp add: ingestor_payload_def)
  next
    case False
    with Some show ?thesis by (simp add: ingestor_payload_def lookup_dict_update)
  qed
qed

lemma memory_payload_lookup:
  "Mapping.lookup (memory_payload t cid role ts extra) k =
     (case extra of
        None \<Rightarrow> Mapping.lookup (memory_base_payload t cid role ts) k
      | Some x \<Rightarrow> (case Mapping.lookup x k of
                     Some v \<Rightarrow> Some v
                   | None \<Rightarrow> Mapping.lookup (memory_base_payload t cid role ts) k))"
proof (cases extra)
  case None
  then show ?thesis by (simp add: memory_payload_def)
next
  case (Some x)
  show ?thesis
  proof (cases "Mapping.is_empty x")
    case True
    then have "Mapping.lookup x k = None"
      by (rule is_empty_lookup)
    with Some True show ?thesis by (simp add: memory_payload_def)
  next
    case False
    with Some show ?thesis by (simp add: memory_payload_def lookup_dict_update)
  qed
qed

section \<open>Batch writes\<close>

text \<open>
  Claim C2.  \<^verbatim>\<open>_store\<close> on a batch of N items: when every item's embedding succeeds,
  the calls it issues are exactly the N embedding requests, in order, followed by one
  upsert of N points, so every embedding is obtained before the upsert.  When the
  embedding of some item fails, the call fails with \<^verbatim>\<open>HTTPException(502)\<close>, the calls
  issued are embedding requests only (no upsert), and the stored points are unchanged:
  nothing of the batch is stored.
\<close>

theorem C2_batch_all_or_nothing:
  assumes "ingestor_store e items w = (res, w')"
  shows "((\<forall>itm\<in>set items. \<not> isl (fst (ingestor_embed e [item_text itm] w))) \<longrightarrow>
           (\<exists>pts. length pts = length items \<and>
                  calls w' = calls w @ map EmbedPost (map item_text items) @ [Upsert (COLLECTION e) pts]))
       \<and> ((\<exists>itm\<in>set items. isl (fst (ingestor_embed e [item_text itm] w))) \<longrightarrow>
           (\<exists>err. res = Inl (HTTPException 502 err)) \<and> points w' = points w \<and>
           (\<exists>n\<le>length items. calls w' = calls w @ map EmbedPost (take n (map item_text items))))"
proof (cases "ingestor_embed e (map item_text items) w")
  case (Pair r w1)
  show ?thesis
  proof (cases r)
    case (Inl err)
    from ingestor_embed_fails[OF Pair[unfolded Inl]]
    have bad: "\<exists>itm\<in>set items. embed_vector e (item_text itm) = None" by auto
    from ingestor_embed_world[OF Pair] obtain n where
      n: "n \<le> length items" "w1 = w\<lparr>calls := calls w @ map EmbedPost (take n (map item_text items))\<rparr>"
      by auto
    from assms Pair Inl have "res = Inl (HTTPException 502 err)" "w' = w1"
      by (simp_all add: ingestor_store_def)
    with n bad show ?thesis
      unfolding ingestor_embed_single_fails by auto
  next
    case (Inr vectors)
    from ingestor_embed_ok[OF Pair[unfolded Inr]] have
      vs: "map Some vectors = map (embed_vector e) (map item_text items)" and
      w1: "w1 = w\<lparr>calls := calls w @ map EmbedPost (map item_text items)\<rparr>"
      by simp_all
    from vs have len: "length vectors = length items"
      by (metis length_map)
    from vs have good: "\<forall>itm\<in>set items. embed_vector e (item_text itm) \<noteq> None"
      by (metis (no_types, lifting) in_set_conv_nth length_map nth_map option.distinct(1) len)
    obtain pts w2 where pw: "ingestor_points e (zip items vectors) w1 = (pts, w2)"
      by (cases "ingestor_points e (zip items vectors) w1")
    from ingestor_points_spec[OF pw] have
      w2: "w2 = w1\<lparr>uuid_count := uuid_count w1 + length (zip items vectors)\<rparr>" and
      ids: "map point_id pts = map (uuid4 e) [uuid_count w1 ..< uuid_count w1 + length (zip items vectors)]"
      by simp_all
    from ids have lp: "length pts = length items"
      using len by (metis length_map length_upt add_diff_cancel_left' length_zip min.idem)
    obtain r3 w3 where up: "upsert e (COLLECTION e) pts w2 = (r3, w3)"
      by (cases "upsert e (COLLECTION e) pts w2")
    from assms Pair Inr pw up have "w' = w3"
      by (cases r3) (simp_all add: ingestor_store_def)
    with upsert_world[OF up] w2 w1 have
      "calls w' = calls w @ map EmbedPost (map item_text items) @ [Upsert (COLLECTION e) pts]"
      by simp
    with lp good show ?thesis
      unfolding ingestor_embed_single_fails by auto
  qed
qed


theorem C2_batch_all_or_nothing_witness:
  "(\<exists>itm\<in>set [example_item, unembeddable_item, example_item].
       isl (fst (ingestor_embed example_env [item_text itm] fresh_world)))
   \<and> (\<exists>err. fst (ingestor_store example_env [example_item, unembeddable_item, example_item]
                  fresh_world) = Inl (HTTPException 502 err))
   \<and> points (snd (ingestor_store example_env [example_item, unembeddable_item, example_item]
                  fresh_world)) = points fresh_world
   \<and> \<not> isl (fst (ingestor_embed example_env [item_text example_item] fresh_world))
   \<and> (\<exists>pts. length pts = 2 \<and>
          calls (snd (ingestor_store example_env [example_item, example_item] fresh_world)) =
            [EmbedPost ''hello'', EmbedPost ''hello'', Upsert ''memories'' pts])"
proof -
  have bad: "\<exists>itm\<in>set [example_item, unembeddable_item, example_item].
       isl (fst (ingestor_embed example_env [item_text itm] fresh_world))"
    by (simp add: example_env_def example_embed_def unembeddable_item_def)
  have good: "\<forall>itm\<in>set [example_item, example_item].
       \<not> isl (fst (ingestor_embed example_env [item_text itm] fresh_world))"
    by (simp add: example_env_def example_embed_def example_item_def)
  have run1: "ingestor_store example_env [example_item, unembeddable_item, example_item] fresh_world =
      (fst (ingestor_store example_env [example_item, unembeddable_item, example_item] fresh_world),
       snd (ingestor_store example_env [example_item, unembeddable_item, example_item] fresh_world))"
    by simp
  have run2: "ingestor_store example_env [example_item, example_item] fresh_world =
      (fst (ingestor_store example_env [example_item, example_item] fresh_world),
       snd (ingestor_store example_env [example_item, example_item] fresh_world))"
    by simp
  from C2_batch_all_or_nothing[OF run1] bad have
    "(\<exists>err. fst (ingestor_store example_env [example_item, unembeddable_item, example_item]
                  fresh_world) = Inl (HTTPException 502 err))
     \<and> points (snd (ingestor_store example_env [example_item, unembeddable_item, example_item]
                  fresh_world)) = points fresh_world"
    by blast
  moreover from C2_batch_all_or_nothing[OF run2] good have
    "\<exists>pts. length pts = 2 \<and>
          calls (snd (ingestor_store example_env [example_item, example_item] fresh_world)) =
            [EmbedPost ''hello'', EmbedPost ''hello'', Upsert ''memories'' pts]"
    by (simp add: fresh_world_def example_item_def example_env_def numeral_2_eq_2)
  moreover from good have
    "\<not> isl (fst (ingestor_embed example_env [item_text example_item] fresh_world))"
    by (simp del: ingestor_embed.simps)
  ultimately show ?thesis using bad by blast
qed

section \<open>Stored payload\<close>

text \<open>
  Claim C1, as stated, fails: both writers build the payload from the four fields and
  then apply \<^verbatim>\<open>payload.update(extra_payload)\<close>, so an \<^verbatim>\<open>extra_payload\<close> with the key
  \<^verbatim>\<open>text\<close> replaces the text of the item.  The item with text \<^verbatim>\<open>hello\<close> is stored with
  text \<^verbatim>\<open>overwritten\<close>, through \<^verbatim>\<open>POST /memory\<close> and through \<^verbatim>\<open>upsert_memory\<close>.
\<close>

theorem C1_reserved_keys_overwritten:
  "raw_text example_raw = Some ''hello''
   \<and> stored_field ''text''
        (snd (ingest_one example_env (example_raw\<lparr>raw_extra_payload := Some clashing_extra\<rparr>)
               fresh_world)) = [Some (PStr ''overwritten'')]
   \<and> stored_field ''text''
        (snd (upsert_memory example_env ''hello'' ''c1'' ''user'' (Some 5) (Some clashing_extra)
               fresh_world)) = [Some (PStr ''overwritten'')]"
  by code_simp

text \<open>
  Claim C1, amended.  Every point a successful write stores carries the payload built
  for its item, and in that payload \<^verbatim>\<open>extra_payload\<close> takes precedence: a key of
  \<^verbatim>\<open>extra_payload\<close> has the value \<^verbatim>\<open>extra_payload\<close> gives it, and every other key has
  the value of the base payload \<^verbatim>\<open>{text, role, conversation_id, ts}\<close>.  This holds for
  \<^verbatim>\<open>_store\<close> and for \<^verbatim>\<open>upsert_memory\<close>.
\<close>

theorem C1_extra_payload_overrides:
  "(\<forall>u w'. ingestor_store e items w = (Inr u, w') \<longrightarrow>
       (\<exists>pts. map point_payload pts = map ingestor_payload items \<and>
              points w' = put_points (COLLECTION e) pts (points w)))
   \<and> (\<forall>u w'. upsert_memory e t cid role ts extra w = (Inr u, w') \<longrightarrow>
       (\<exists>p. point_payload p = memory_payload t cid role (memory_ts e ts) extra \<and>
            points w' = put_points (COLLECTION e) [p] (points w)))
   \<and> Mapping.lookup (ingestor_payload itm) k =
       (case item_extra_payload itm of
          None \<Rightarrow> Mapping.lookup (ingestor_base_payload itm) k
        | Some x \<Rightarrow> (case Mapping.lookup x k of
                       Some v \<Rightarrow> Some v
                     | None \<Rightarrow> Mapping.lookup (ingestor_base_payload itm) k))
   \<and> Mapping.lookup (memory_payload t cid role ts1 extra) k =
       (case extra of
          None \<Rightarrow> Mapping.lookup (memory_base_payload t cid role ts1) k
        | Some x \<Rightarrow> (case Mapping.lookup x k of
                       Some v \<Rightarrow> Some v
                     | None \<Rightarrow> Mapping.lookup (memory_base_payload t cid role ts1) k))"
proof -
  have a: "\<forall>u w'. ingestor_store e items w = (Inr u, w') \<longrightarrow>
       (\<exists>pts. map point_payload pts = map ingestor_payload items \<and>
              points w' = put_points (COLLECTION e) pts (points w))"
  proof (intro allI impI)
    fix u w' assume "ingestor_store e items w = (Inr u, w')"
    from ingestor_store_success[OF this] obtain pts where
      "map point_payload pts = map ingestor_payload items"
      "w' = w\<lparr>calls := calls w @ map EmbedPost (map item_text items) @ [Upsert (COLLECTION e) pts],
                  uuid_count := uuid_count w + length items,
                  points := put_points (COLLECTION e) pts (points w)\<rparr>"
      by blast
    then show "\<exists>pts. map point_payload pts = map ingestor_payload items \<and>
              points w' = put_points (COLLECTION e) pts (points w)"
      by (intro exI[of _ pts]) simp
  qed
  have b: "\<forall>u w'. upsert_memory e t cid role ts extra w = (Inr u, w') \<longrightarrow>
       (\<exists>p. point_payload p = memory_payload t cid role (memory_ts e ts) extra \<and>
            points w' = put_points (COLLECTION e) [p] (points w))"
  proof (intro allI impI)
    fix u w' assume "upsert_memory e t cid role ts extra w = (Inr u, w')"
    from upsert_memory_success[OF this] obtain v where
      "w' = w\<lparr>calls := calls w @ [EmbedPost t,
                     UploadPoints (COLLECTION e)
                       [\<lparr>point_id = memory_id e t cid role (memory_ts e ts), point_vector = v,
                         point_payload = memory_payload t cid role (memory_ts e ts) extra\<rparr>]],
                  points := put_points (COLLECTION e)
                       [\<lparr>point_id = memory_id e t cid role (memory_ts e ts), point_vector = v,
                         point_payload = memory_payload t cid role (memory_ts e ts) extra\<rparr>] (points w)\<rparr>"
      by blast
    then show "\<exists>p. point_payload p = memory_payload t cid role (memory_ts e ts) extra \<and>
            points w' = put_points (COLLECTION e) [p] (points w)"
      by (intro exI[of _ "\<lparr>point_id = memory_id e t cid role (memory_ts e ts), point_vector = v,
                         point_payload = memory_payload t cid role (memory_ts e ts) extra\<rparr>"]) simp
  qed
  from a b ingestor_payload_lookup[of itm k] memory_payload_lookup[of t cid role ts1 extra k]
  show ?thesis by blast
qed

theorem C1_extra_payload_overrides_witness:
  "Mapping.lookup (ingestor_payload clashing_item) ''text'' = Some (PStr ''overwritten'')
   \<and> Mapping.lookup (memory_payload ''hello'' ''c1'' ''user'' 5 (Some clashing_extra)) ''text''
       = Some (PStr ''overwritten'')
   \<and> (\<exists>pts. map point_payload pts = map ingestor_payload [clashing_item] \<and>
          points (snd (ingestor_store example_env [clashing_item] fresh_world)) =
            put_points ''memories'' pts [])
   \<and> (\<exists>p. point_payload p = memory_payload ''hello'' ''c1'' ''user'' 5 (Some clashing_extra) \<and>
          points (snd (upsert_memory example_env ''hello'' ''c1'' ''user'' (Some 5)
                        (Some clashing_extra) fresh_world)) =
            put_points ''memories'' [p] [])"
proof -
  have r1: "fst (ingestor_store example_env [clashing_item] fresh_world) = Inr ()"
    by code_simp
  have r2: "fst (upsert_memory example_env ''hello'' ''c1'' ''user'' (Some 5)
                        (Some clashing_extra) fresh_world) = Inr ()"
    by code_simp
  have s1: "ingestor_store example_env [clashing_item] fresh_world =
      (Inr (), snd (ingestor_store example_env [clashing_item] fresh_world))"
    using r1 by (metis prod.collapse)
  have s2: "upsert_memory example_env ''hello'' ''c1'' ''user'' (Some 5)
                        (Some clashing_extra) fresh_world =
      (Inr (), snd (upsert_memory example_env ''hello'' ''c1'' ''user'' (Some 5)
                        (Some clashing_extra) fresh_world))"
    using r2 by (metis prod.collapse)
  have look: "Mapping.lookup clashing_extra ''text'' = Some (PStr ''overwritten'')"
    by (simp add: clashing_extra_def lookup_of_alist)
  note th = C1_extra_payload_overrides[of example_env "[clashing_item]" fresh_world
      "''hello''" "''c1''" "''user''" "Some 5" "Some clashing_extra" clashing_item "''text''" 5]
  from th s1 have
    "\<exists>pts. map point_payload pts = map ingestor_payload [clashing_item] \<and>
          points (snd (ingestor_store example_env [clashing_item] fresh_world)) =
            put_points ''memories'' pts []"
    by (simp add: example_env_def fresh_world_def)
  moreover from th s2 have
    "\<exists>p. point_payload p = memory_payload ''hello'' ''c1'' ''user'' 5 (Some clashing_extra) \<and>
          points (snd (upsert_memory example_env ''hello'' ''c1'' ''user'' (Some 5)
                        (Some clashing_extra) fresh_world)) =
            put_points ''memories'' [p] []"
    by (simp add: example_env_def fresh_world_def memory_ts_def)
  moreover from th look have
    "Mapping.lookup (ingestor_payload clashing_item) ''text'' = Some (PStr ''overwritten'')"
    by (simp add: clashing_item_def)
  moreover from th look have
    "Mapping.lookup (memory_payload ''hello'' ''c1'' ''user'' 5 (Some clashing_extra)) ''text''
       = Some (PStr ''overwritten'')"
    by simp
  ultimately show ?thesis by blast
qed

section \<open>Validation before the write\<close>

lemma parse_Item_missing:
  "raw_text r = None \<or> raw_conversation_id r = None \<Longrightarrow>
     parse_Item e r = Inl (ValidationError (Item_missing r)) \<and> Item_missing r \<noteq> []"
  by (auto simp: parse_Item_def Item_missing_def split: option.splits)

lemma parse_Item_present:
  "raw_text r = Some t \<Longrightarrow> raw_conversation_id r = Some c \<Longrightarrow>
     parse_Item e r =
       Inr \<lparr>item_text = t, item_conversation_id = c,
            item_role = (case raw_role r of None \<Rightarrow> ''user'' | Some ro \<Rightarrow> ro),
            item_timestamp = Item_ts e (raw_timestamp r),
            item_extra_payload = raw_extra_payload r\<rparr>"
  by (simp add: parse_Item_def)

lemma parse_Batch_missing:
  "\<exists>r\<in>set rs. raw_text r = None \<or> raw_conversation_id r = None \<Longrightarrow>
     \<exists>fs. parse_Batch e rs = Inl (ValidationError fs)"
proof (induction rs)
  case Nil
  then show ?case by simp
next
  case (Cons r rs)
  show ?case
  proof (cases "raw_text r = None \<or> raw_conversation_id r = None")
    case True
    from parse_Item_missing[OF True, of e] show ?thesis by simp
  next
    case False
    with Cons.prems have "\<exists>r\<in>set rs. raw_text r = None \<or> raw_conversation_id r = None"
      by auto
    from Cons.IH[OF this] obtain fs where "parse_Batch e rs = Inl (ValidationError fs)" ..
    then show ?thesis by (simp split: sum.splits)
  qed
qed

lemma ingestor_store_single_calls:
  "\<exists>rest. calls (snd (ingestor_store e [itm] w)) = calls w @ EmbedPost (item_text itm) # rest"
  by (auto simp: ingestor_store_def Let_def upsert_def issue_def
           split: embed_reply.splits option.splits)

text \<open>
  Claim C3, as stated, fails: \<^verbatim>\<open>Item\<close> declares \<^verbatim>\<open>text: str\<close> and
  \<^verbatim>\<open>conversation_id: str\<close> with no length constraint, so an empty string passes
  validation.  The item with the empty text is embedded (the first call issued is the
  embedding request for the empty text) and stored, and so is the item with the empty
  conversation id.
\<close>

theorem C3_empty_fields_reach_the_network:
  "fst (ingest_one example_env (example_raw\<lparr>raw_text := Some ''''\<rparr>) fresh_world) = Inr ()
   \<and> hd (calls (snd (ingest_one example_env (example_raw\<lparr>raw_text := Some ''''\<rparr>) fresh_world)))
       = EmbedPost ''''
   \<and> stored_field ''text''
       (snd (ingest_one example_env (example_raw\<lparr>raw_text := Some ''''\<rparr>) fresh_world))
       = [Some (PStr '''')]
   \<and> fst (ingest_one example_env (example_raw\<lparr>raw_conversation_id := Some ''''\<rparr>) fresh_world)
       = Inr ()
   \<and> stored_field ''conversation_id''
       (snd (ingest_one example_env (example_raw\<lparr>raw_conversation_id := Some ''''\<rparr>) fresh_world))
       = [Some (PStr '''')]"
  by code_simp

text \<open>
  Claim C3, amended.  A request whose \<^verbatim>\<open>text\<close> or \<^verbatim>\<open>conversation_id\<close> is missing is
  rejected with a \<^verbatim>\<open>ValidationError\<close> and no call is issued (the world is unchanged); in
  a batch, one such item rejects the whole batch.  When both fields are present,
  whatever their content and so also when empty, validation succeeds and the writer
  issues the embedding request for the text.
\<close>

theorem C3_required_fields:
  "((raw_text r = None \<or> raw_conversation_id r = None) \<longrightarrow>
       (\<exists>fs. fs \<noteq> [] \<and> ingest_one e r w = (Inl (ValidationError fs), w)))
   \<and> ((\<exists>r\<in>set rs. raw_text r = None \<or> raw_conversation_id r = None) \<longrightarrow>
       (\<exists>fs. ingest_batch e rs w = (Inl (ValidationError fs), w)))
   \<and> (\<forall>t c. raw_text r = Some t \<and> raw_conversation_id r = Some c \<longrightarrow>
       (\<exists>itm. parse_Item e r = Inr itm \<and> item_text itm = t \<and> item_conversation_id itm = c) \<and>
       (\<exists>rest. calls (snd (ingest_one e r w)) = calls w @ EmbedPost t # rest))"
proof (intro conjI impI allI)
  assume "raw_text r = None \<or> raw_conversation_id r = None"
  from parse_Item_missing[OF this, of e]
  show "\<exists>fs. fs \<noteq> [] \<and> ingest_one e r w = (Inl (ValidationError fs), w)"
    by (simp add: ingest_one_def)
next
  assume "\<exists>r\<in>set rs. raw_text r = None \<or> raw_conversation_id r = None"
  from parse_Batch_missing[OF this, of e]
  show "\<exists>fs. ingest_batch e rs w = (Inl (ValidationError fs), w)"
    by (auto simp: ingest_batch_def)
next
  fix t c assume "raw_text r = Some t \<and> raw_conversation_id r = Some c"
  then show "\<exists>itm. parse_Item e r = Inr itm \<and> item_text itm = t \<and> item_conversation_id itm = c"
    by (simp add: parse_Item_present)
next
  fix t c assume tc: "raw_text r = Some t \<and> raw_conversation_id r = Some c"
  then have p: "parse_Item e r =
       Inr \<lparr>item_text = t, item_conversation_id = c,
            item_role = (case raw_role r of None \<Rightarrow> ''user'' | Some ro \<Rightarrow> ro),
            item_timestamp = Item_ts e (raw_timestamp r),
            item_extra_payload = raw_extra_payload r\<rparr>"
    by (simp add: parse_Item_present)
  from ingestor_store_single_calls[of e "\<lparr>item_text = t, item_conversation_id = c,
            item_role = (case raw_role r of None \<Rightarrow> ''user'' | Some ro \<Rightarrow> ro),
            item_timestamp = Item_ts e (raw_timestamp r),
            item_extra_payload = raw_extra_payload r\<rparr>" w] p
  show "\<exists>rest. calls (snd (ingest_one e r w)) = calls w @ EmbedPost t # rest"
    by (simp add: ingest_one_def)
qed

theorem C3_required_fields_witness:
  "(\<exists>fs. fs \<noteq> [] \<and>
       ingest_one example_env (example_raw\<lparr>raw_text := None\<rparr>) fresh_world =
         (Inl (ValidationError fs), fresh_world))
   \<and> (\<exists>fs. ingest_batch example_env [example_raw, example_raw\<lparr>raw_text := None\<rparr>] fresh_world =
         (Inl (ValidationError fs), fresh_world))
   \<and> (\<exists>rest. calls (snd (ingest_one example_env (example_raw\<lparr>raw_text := Some ''''\<rparr>) fresh_world))
         = EmbedPost '''' # rest)"
proof -
  note a = C3_required_fields[where r = "example_raw\<lparr>raw_text := None\<rparr>"
      and rs = "[example_raw, example_raw\<lparr>raw_text := None\<rparr>]"
      and e = example_env and w = fresh_world]
  note b = C3_required_fields[where r = "example_raw\<lparr>raw_text := Some ''''\<rparr>"
      and rs = "[]" and e = example_env and w = fresh_world]
  from a have "\<exists>fs. fs \<noteq> [] \<and>
       ingest_one example_env (example_raw\<lparr>raw_text := None\<rparr>) fresh_world =
         (Inl (ValidationError fs), fresh_world)"
    by simp
  moreover from a have "\<exists>fs. ingest_batch example_env [example_raw, example_raw\<lparr>raw_text := None\<rparr>] fresh_world =
         (Inl (ValidationError fs), fresh_world)"
    by simp
  moreover from b have "\<exists>rest. calls (snd (ingest_one example_env (example_raw\<lparr>raw_text := Some ''''\<rparr>) fresh_world))
         = EmbedPost '''' # rest"
    by (simp add: example_raw_def fresh_world_def)
  ultimately show ?thesis by blast
qed

section \<open>Point identifiers\<close>





section \<open>Retrieval requests\<close>







section \<open>What retrieval returns\<close>

lemma top_k_accepted:
  "\<not> store_rejects e (Search (COLLECTION e) v c n) \<Longrightarrow>
     fst (top_k e v c n w) = top_k_project (store_hits e v c n)"
  by (simp add: top_k_def search_def Let_def)

lemma top_k_rejected:
  "store_rejects e (Search (COLLECTION e) v c n) \<Longrightarrow> fst (top_k e v c n w) = Inl StorageError"
  by (simp add: top_k_def search_def Let_def)

lemma top_k_project_all_text:
  "\<forall>h\<in>set hits. Mapping.lookup (hit_payload h) ''text'' \<noteq> None \<Longrightarrow>
     top_k_project hits =
       Inr (map (\<lambda>h. top_k_entry (the (Mapping.lookup (hit_payload h) ''text'')) h) hits)"
  by (induction hits) auto

lemma top_k_project_missing_text:
  "\<exists>h\<in>set hits. Mapping.lookup (hit_payload h) ''text'' = None \<Longrightarrow>
     top_k_project hits = Inl (KeyError ''text'')"
proof (induction hits)
  case Nil
  then show ?case by simp
next
  case (Cons h hs)
  show ?case
  proof (cases "Mapping.lookup (hit_payload h) ''text''")
    case None
    then show ?thesis by simp
  next
    case (Some t)
    with Cons.prems have "\<exists>h\<in>set hs. Mapping.lookup (hit_payload h) ''text'' = None"
      by auto
    from Cons.IH[OF this] Some show ?thesis by simp
  qed
qed

lemma top_k_entry_lookup:
  "Mapping.lookup (top_k_entry t h) ''text'' = Some t"
  "Mapping.lookup (top_k_entry t h) ''role'' =
     Some (case Mapping.lookup (hit_payload h) ''role'' of None \<Rightarrow> PStr ''unknown'' | Some r \<Rightarrow> r)"
  "Mapping.lookup (top_k_entry t h) ''timestamp'' =
     Some (case Mapping.lookup (hit_payload h) ''ts'' of None \<Rightarrow> PNone | Some ts \<Rightarrow> ts)"
  "Mapping.lookup (top_k_entry t h) ''score'' = Some (PFloat (hit_score h))"
  "Mapping.keys (top_k_entry t h) = {''text'', ''role'', ''timestamp'', ''score''}"
  by (simp_all add: top_k_entry_def lookup_of_alist)




text \<open>
  Claim C6, as stated, fails: the projection reads \<^verbatim>\<open>h.payload["text"]\<close> with plain
  indexing.  When the store returns two hits of which the second has no \<^verbatim>\<open>text\<close>,
  \<^verbatim>\<open>top_k\<close> returns no list at all but raises \<^verbatim>\<open>KeyError\<close>.
\<close>

theorem C6_hit_without_text_raises:
  "store_hits (example_env\<lparr>store_hits := hits_without_text\<rparr>) [1 / 10, 2 / 10, 3 / 10] ''c1'' 6
     = [hit_full, hit_no_text]
   \<and> fst (top_k (example_env\<lparr>store_hits := hits_without_text\<rparr>) [1 / 10, 2 / 10, 3 / 10] ''c1'' 6
          fresh_world) = Inl (KeyError ''text'')"
  by (simp add: hits_without_text_def top_k_accepted example_env_def accept_all_def
        hit_full_def hit_no_text_def lookup_of_alist)

text \<open>
  Claim C6, amended.  When the store accepts the search and every hit it returns has a
  \<^verbatim>\<open>text\<close> in its payload, \<^verbatim>\<open>top_k\<close> returns one entry per hit, in the order of the
  hits; entry \<open>i\<close> has exactly the keys \<^verbatim>\<open>text\<close>, \<^verbatim>\<open>role\<close>, \<^verbatim>\<open>timestamp\<close> and \<^verbatim>\<open>score\<close>, with
  the text and the score of hit \<open>i\<close>, its \<^verbatim>\<open>role\<close> or \<^verbatim>\<open>"unknown"\<close> when the payload has
  none, and its \<^verbatim>\<open>ts\<close> or \<^verbatim>\<open>None\<close> when the payload has none.
\<close>

theorem C6_projection:
  assumes "\<not> store_rejects e (Search (COLLECTION e) v c n)"
    and "\<forall>h\<in>set (store_hits e v c n). Mapping.lookup (hit_payload h) ''text'' \<noteq> None"
  shows "\<exists>rs. fst (top_k e v c n w) = Inr rs \<and> length rs = length (store_hits e v c n) \<and>
           (\<forall>i<length rs.
              Mapping.keys (rs ! i) = {''text'', ''role'', ''timestamp'', ''score''} \<and>
              Mapping.lookup (rs ! i) ''text'' =
                Mapping.lookup (hit_payload (store_hits e v c n ! i)) ''text'' \<and>
              Mapping.lookup (rs ! i) ''role'' =
                Some (case Mapping.lookup (hit_payload (store_hits e v c n ! i)) ''role'' of
                        None \<Rightarrow> PStr ''unknown'' | Some r \<Rightarrow> r) \<and>
              Mapping.lookup (rs ! i) ''timestamp'' =
                Some (case Mapping.lookup (hit_payload (store_hits e v c n ! i)) ''ts'' of
                        None \<Rightarrow> PNone | Some ts \<Rightarrow> ts) \<and>
              Mapping.lookup (rs ! i) ''score'' = Some (PFloat (hit_score (store_hits e v c n ! i))))"
proof -
  let ?hits = "store_hits e v c n"
  let ?rs = "map (\<lambda>h. top_k_entry (the (Mapping.lookup (hit_payload h) ''text'')) h) ?hits"
  from top_k_accepted[OF assms(1)] top_k_project_all_text[OF assms(2)]
  have r: "fst (top_k e v c n w) = Inr ?rs" by simp
  have "\<forall>i<length ?rs.
              Mapping.keys (?rs ! i) = {''text'', ''role'', ''timestamp'', ''score''} \<and>
              Mapping.lookup (?rs ! i) ''text'' = Mapping.lookup (hit_payload (?hits ! i)) ''text'' \<and>
              Mapping.lookup (?rs ! i) ''role'' =
                Some (case Mapping.lookup (hit_payload (?hits ! i)) ''role'' of
                        None \<Rightarrow> PStr ''unknown'' | Some r \<Rightarrow> r) \<and>
              Mapping.lookup (?rs ! i) ''timestamp'' =
                Some (case Mapping.lookup (hit_payload (?hits ! i)) ''ts'' of
                        None \<Rightarrow> PNone | Some ts \<Rightarrow> ts) \<and>
              Mapping.lookup (?rs ! i) ''score'' = Some (PFloat (hit_score (?hits ! i)))"
  proof (intro allI impI)
    fix i assume "i < length ?rs"
    then have i: "i < length ?hits" by simp
    then have "?hits ! i \<in> set ?hits" by simp
    with assms(2) obtain t where "Mapping.lookup (hit_payload (?hits ! i)) ''text'' = Some t"
      by blast
    with i show "Mapping.keys (?rs ! i) = {''text'', ''role'', ''timestamp'', ''score''} \<and>
              Mapping.lookup (?rs ! i) ''text'' = Mapping.lookup (hit_payload (?hits ! i)) ''text'' \<and>
              Mapping.lookup (?rs ! i) ''role'' =
                Some (case Mapping.lookup (hit_payload (?hits ! i)) ''role'' of
                        None \<Rightarrow> PStr ''unknown'' | Some r \<Rightarrow> r) \<and>
              Mapping.lookup (?rs ! i) ''timestamp'' =
                Some (case Mapping.lookup (hit_payload (?hits ! i)) ''ts'' of
                        None \<Rightarrow> PNone | Some ts \<Rightarrow> ts) \<and>
              Mapping.lookup (?rs ! i) ''score'' = Some (PFloat (hit_score (?hits ! i)))"
      by (simp add: top_k_entry_lookup)
  qed
  with r show ?thesis by (intro exI[of _ ?rs]) simp
qed


theorem C6_projection_witness:
  "\<not> store_rejects (example_env\<lparr>store_hits := two_hits\<rparr>)
        (Search ''memories'' [1 / 10, 2 / 10, 3 / 10] ''c1'' 6)
   \<and> Mapping.lookup (hit_payload hit_full) ''text'' \<noteq> None
   \<and> Mapping.lookup (hit_payload hit_bare) ''text'' \<noteq> None
   \<and> (\<exists>rs. fst (top_k (example_env\<lparr>store_hits := two_hits\<rparr>) [1 / 10, 2 / 10, 3 / 10] ''c1'' 6
                 fresh_world) = Inr rs \<and> length rs = 2 \<and>
          Mapping.lookup (rs ! 0) ''text'' = Some (PStr ''hello'') \<and>
          Mapping.lookup (rs ! 0) ''role'' = Some (PStr ''user'') \<and>
          Mapping.lookup (rs ! 0) ''timestamp'' = Some (PInt 5) \<and>
          Mapping.lookup (rs ! 0) ''score'' = Some (PFloat 1) \<and>
          Mapping.lookup (rs ! 1) ''text'' = Some (PStr ''note'') \<and>
          Mapping.lookup (rs ! 1) ''role'' = Some (PStr ''unknown'') \<and>
          Mapping.lookup (rs ! 1) ''timestamp'' = Some PNone \<and>
          Mapping.lookup (rs ! 1) ''score'' = Some (PFloat (1 / 2)))"
proof -
  let ?e = "example_env\<lparr>store_hits := two_hits\<rparr>"
  let ?v = "[1 / 10, 2 / 10, 3 / 10] :: vec"
  have acc: "\<not> store_rejects ?e (Search (COLLECTION ?e) ?v ''c1'' 6)"
    by (simp add: example_env_def accept_all_def)
  have hits: "store_hits ?e ?v ''c1'' 6 = [hit_full, hit_bare]"
    by (simp add: two_hits_def)
  have t1: "Mapping.lookup (hit_payload hit_full) ''text'' \<noteq> None"
    by (simp add: hit_full_def lookup_of_alist)
  have t2: "Mapping.lookup (hit_payload hit_bare) ''text'' \<noteq> None"
    by (simp add: hit_bare_def lookup_of_alist)
  have all: "\<forall>h\<in>set (store_hits ?e ?v ''c1'' 6). Mapping.lookup (hit_payload h) ''text'' \<noteq> None"
    unfolding hits using t1 t2 by simp
  from C6_projection[OF acc all, of fresh_world] obtain rs where
    r: "fst (top_k ?e ?v ''c1'' 6 fresh_world) = Inr rs" and
    l: "length rs = length [hit_full, hit_bare]" and
    p: "\<forall>i<length rs.
              Mapping.keys (rs ! i) = {''text'', ''role'', ''timestamp'', ''score''} \<and>
              Mapping.lookup (rs ! i) ''text'' =
                Mapping.lookup (hit_payload ([hit_full, hit_bare] ! i)) ''text'' \<and>
              Mapping.lookup (rs ! i) ''role'' =
                Some (case Mapping.lookup (hit_payload ([hit_full, hit_bare] ! i)) ''role'' of
                        None \<Rightarrow> PStr ''unknown'' | Some r \<Rightarrow> r) \<and>
              Mapping.lookup (rs ! i) ''timestamp'' =
                Some (case Mapping.lookup (hit_payload ([hit_full, hit_bare] ! i)) ''ts'' of
                        None \<Rightarrow> PNone | Some ts \<Rightarrow> ts) \<and>
              Mapping.lookup (rs ! i) ''score'' = Some (PFloat (hit_score ([hit_full, hit_bare] ! i)))"
    unfolding hits by blast
  from l have l2: "length rs = 2" by simp
  then have "0 < length rs" "1 < length rs" by simp_all
  with p have p0: "Mapping.lookup (rs ! 0) ''text'' = Some (PStr ''hello'') \<and>
          Mapping.lookup (rs ! 0) ''role'' = Some (PStr ''user'') \<and>
          Mapping.lookup (rs ! 0) ''timestamp'' = Some (PInt 5) \<and>
          Mapping.lookup (rs ! 0) ''score'' = Some (PFloat 1)"
    and p1: "Mapping.lookup (rs ! 1) ''text'' = Some (PStr ''note'') \<and>
          Mapping.lookup (rs ! 1) ''role'' = Some (PStr ''unknown'') \<and>
          Mapping.lookup (rs ! 1) ''timestamp'' = Some PNone \<and>
          Mapping.lookup (rs ! 1) ''score'' = Some (PFloat (1 / 2))"
    by (simp_all add: hit_full_def hit_bare_def lookup_of_alist)
  from acc have acc': "\<not> store_rejects ?e (Search ''memories'' ?v ''c1'' 6)"
    by (simp add: example_env_def)
  from acc' t1 t2 r l2 p0 p1 show ?thesis by blast
qed

text \<open>
  Claim C8, as stated, fails in its last part: a search that the store accepts and
  answers with a single hit (fewer than \<open>k = 6\<close>) still fails when that hit has no
  \<^verbatim>\<open>text\<close>, with \<^verbatim>\<open>KeyError\<close> rather than a storage error; the endpoint reports it as
  \<^verbatim>\<open>HTTPException(500)\<close>.
\<close>

theorem C8_failure_without_store_error:
  "\<not> store_rejects (example_env\<lparr>store_hits := one_hit_without_text\<rparr>)
        (Search ''memories'' [1 / 10, 2 / 10, 3 / 10] ''c1'' 6)
   \<and> length (store_hits (example_env\<lparr>store_hits := one_hit_without_text\<rparr>)
               [1 / 10, 2 / 10, 3 / 10] ''c1'' 6) = 1
   \<and> top_k (example_env\<lparr>store_hits := one_hit_without_text\<rparr>) [1 / 10, 2 / 10, 3 / 10] ''c1'' 6
        fresh_world
      = (Inl (KeyError ''text''),
         fresh_world\<lparr>calls := [Search ''memories'' [1 / 10, 2 / 10, 3 / 10] ''c1'' 6],
                     client_ready := True\<rparr>)
   \<and> fst (post_context (example_env\<lparr>store_hits := one_hit_without_text\<rparr>) example_request
            fresh_world) = Inl (HTTPException 500 (KeyError ''text''))"
  by (simp add: example_env_def accept_all_def one_hit_without_text_def top_k_def search_def
        issue_def client_lazy_def fresh_world_def hit_no_text_def lookup_of_alist
        post_context_def parse_ContextReq_def example_request_def ContextReq_errors_def)

text \<open>
  Claim C8, amended.  The number of hits plays no part in the outcome of \<^verbatim>\<open>top_k\<close>: a
  search the store refuses fails with the store's error; an accepted search with no hit
  returns the empty list; an accepted search whose hits all have a \<^verbatim>\<open>text\<close> returns as
  many entries as there are hits, however that number compares with \<open>k\<close>.  The only
  failures are the store's error and the \<^verbatim>\<open>KeyError\<close> for a hit without \<^verbatim>\<open>text\<close>.
\<close>

theorem C8_fewer_hits_no_error:
  "(store_rejects e (Search (COLLECTION e) v c n) \<longrightarrow> fst (top_k e v c n w) = Inl StorageError)
   \<and> (\<not> store_rejects e (Search (COLLECTION e) v c n) \<and> store_hits e v c n = [] \<longrightarrow>
        fst (top_k e v c n w) = Inr [])
   \<and> (\<not> store_rejects e (Search (COLLECTION e) v c n) \<and>
       (\<forall>h\<in>set (store_hits e v c n). Mapping.lookup (hit_payload h) ''text'' \<noteq> None) \<longrightarrow>
        (\<exists>rs. fst (top_k e v c n w) = Inr rs \<and> length rs = length (store_hits e v c n)))
   \<and> (\<forall>err. fst (top_k e v c n w) = Inl err \<longrightarrow>
        err = StorageError \<and> store_rejects e (Search (COLLECTION e) v c n) \<or>
        err = KeyError ''text'' \<and> \<not> store_rejects e (Search (COLLECTION e) v c n) \<and>
          (\<exists>h\<in>set (store_hits e v c n). Mapping.lookup (hit_payload h) ''text'' = None))"
proof (cases "store_rejects e (Search (COLLECTION e) v c n)")
  case True
  from top_k_rejected[OF True, of w] True show ?thesis by simp
next
  case False
  note acc = top_k_accepted[OF False, of w]
  show ?thesis
  proof (cases "\<forall>h\<in>set (store_hits e v c n). Mapping.lookup (hit_payload h) ''text'' \<noteq> None")
    case True
    from top_k_project_all_text[OF True] acc False show ?thesis by auto
  next
    case bad: False
    then have "\<exists>h\<in>set (store_hits e v c n). Mapping.lookup (hit_payload h) ''text'' = None"
      by simp
    from top_k_project_missing_text[OF this] this acc False show ?thesis by auto
  qed
qed


theorem C8_fewer_hits_no_error_witness:
  "fst (top_k example_env [1 / 10, 2 / 10, 3 / 10] ''c1'' 6 fresh_world) = Inr []
   \<and> (\<exists>rs. fst (top_k (example_env\<lparr>store_hits := two_hits\<rparr>) [1 / 10, 2 / 10, 3 / 10] ''c1'' 30
                 fresh_world) = Inr rs \<and> length rs = 2)
   \<and> fst (top_k (example_env\<lparr>store_rejects := unreachable\<rparr>) [1 / 10, 2 / 10, 3 / 10] ''c1'' 6
            fresh_world) = Inl StorageError"
proof -
  let ?v = "[1 / 10, 2 / 10, 3 / 10] :: vec"
  from C8_fewer_hits_no_error[of example_env ?v "''c1''" 6 fresh_world]
  have a: "fst (top_k example_env ?v ''c1'' 6 fresh_world) = Inr []"
    by (simp add: example_env_def accept_all_def no_hits_def)
  from C8_fewer_hits_no_error[of "example_env\<lparr>store_hits := two_hits\<rparr>" ?v "''c1''" 30 fresh_world]
  have b: "\<exists>rs. fst (top_k (example_env\<lparr>store_hits := two_hits\<rparr>) ?v ''c1'' 30 fresh_world) = Inr rs
             \<and> length rs = 2"
    by (simp add: example_env_def accept_all_def two_hits_def hit_full_def hit_bare_def
          lookup_of_alist numeral_2_eq_2)
  from C8_fewer_hits_no_error[of "example_env\<lparr>store_rejects := unreachable\<rparr>" ?v "''c1''" 6 fresh_world]
  have c: "fst (top_k (example_env\<lparr>store_rejects := unreachable\<rparr>) ?v ''c1'' 6 fresh_world)
             = Inl StorageError"
    by (simp add: unreachable_def)
  from a b c show ?thesis by blast
qed



section \<open>The default timestamp\<close>



section \<open>Bootstrap of the collection\<close>

lemma ingestor_ensure_existing:
  "COLLECTION e \<in> set (map fst (collections w)) \<Longrightarrow>
     \<exists>r. ingestor_ensure_collection e w = (r, w\<lparr>calls := calls w @ [GetCollections]\<rparr>)"
  by (simp add: ingestor_ensure_collection_def get_collections_def issue_def Let_def)

lemma QdrantMemory_ensure_existing:
  "COLLECTION e \<in> set (map fst (collections w)) \<Longrightarrow>
     \<exists>r. QdrantMemory_ensure_collection e w = (r, w\<lparr>calls := calls w @ [GetCollections]\<rparr>)"
  by (auto simp: QdrantMemory_ensure_collection_def get_collections_def issue_def Let_def
        list_ex_iff)

lemma filter_absent:
  "name \<notin> set (map fst cs) \<Longrightarrow> filter (\<lambda>c. fst c \<noteq> name) cs = cs"
  by (induction cs) auto

lemma ingestor_ensure_fresh:
  assumes "COLLECTION e \<notin> set (map fst (collections w))" and "\<forall>c. \<not> store_rejects e c"
  shows "fst (ingestor_ensure_collection e w) = Inr ()"
    and "calls (snd (ingestor_ensure_collection e w)) = calls w @
          [GetCollections, RecreateCollection (COLLECTION e) (VECTOR_SIZE e) Cosine,
           CreatePayloadIndex (COLLECTION e) ''conversation_id'' ''keyword'',
           CreatePayloadIndex (COLLECTION e) ''ts'' ''integer'']"
    and "collections (snd (ingestor_ensure_collection e w)) =
          (COLLECTION e, VECTOR_SIZE e, Cosine) # collections w"
  using assms filter_absent[OF assms(1)]
  by (simp_all add: ingestor_ensure_collection_def get_collections_def recreate_collection_def
        create_payload_index_def issue_def Let_def)

lemma QdrantMemory_ensure_fresh:
  assumes "COLLECTION e \<notin> set (map fst (collections w))" and "\<forall>c. \<not> store_rejects e c"
  shows "fst (QdrantMemory_ensure_collection e w) = Inr ()"
    and "calls (snd (QdrantMemory_ensure_collection e w)) = calls w @
          [GetCollections, RecreateCollection (COLLECTION e) (VECTOR_SIZE e) Cosine,
           CreatePayloadIndex (COLLECTION e) ''conversation_id'' ''keyword'',
           CreatePayloadIndex (COLLECTION e) ''ts'' ''integer'']"
    and "collections (snd (QdrantMemory_ensure_collection e w)) =
          (COLLECTION e, VECTOR_SIZE e, Cosine) # collections w"
  using assms filter_absent[OF assms(1)]
  by (simp_all add: QdrantMemory_ensure_collection_def get_collections_def recreate_collection_def
        create_payload_index_def issue_def Let_def list_ex_iff DISTANCE_def)

text \<open>
  Claim C7.  When the collection already exists, \<^verbatim>\<open>_ensure_collection\<close> (in the ingestor
  and in \<^verbatim>\<open>QdrantMemory\<close>) only lists the collections: the world after the call is the
  world before it with that one call added, so nothing is created, no index is created,
  and the size and metric of the existing collection stay as they are.  On a deployment
  without the collection, and a store that accepts the calls, the first call lists the
  collections, creates the collection once and creates the two indexes; the second
  call, made right after it, only lists the collections and creates nothing.
\<close>

theorem C7_ensure_collection_idempotent:
  "(COLLECTION e \<in> set (map fst (collections w)) \<longrightarrow>
      (\<exists>r. ingestor_ensure_collection e w = (r, w\<lparr>calls := calls w @ [GetCollections]\<rparr>)) \<and>
      (\<exists>r. QdrantMemory_ensure_collection e w = (r, w\<lparr>calls := calls w @ [GetCollections]\<rparr>)))
   \<and> (COLLECTION e \<notin> set (map fst (collections w)) \<and> (\<forall>c. \<not> store_rejects e c) \<longrightarrow>
      calls (snd (ingestor_ensure_collection e w)) = calls w @
          [GetCollections, RecreateCollection (COLLECTION e) (VECTOR_SIZE e) Cosine,
           CreatePayloadIndex (COLLECTION e) ''conversation_id'' ''keyword'',
           CreatePayloadIndex (COLLECTION e) ''ts'' ''integer''] \<and>
      collections (snd (ingestor_ensure_collection e w)) =
          (COLLECTION e, VECTOR_SIZE e, Cosine) # collections w \<and>
      ingestor_ensure_collection e (snd (ingestor_ensure_collection e w)) =
          (Inr (), (snd (ingestor_ensure_collection e w))
                     \<lparr>calls := calls (snd (ingestor_ensure_collection e w)) @ [GetCollections]\<rparr>) \<and>
      calls (snd (QdrantMemory_ensure_collection e w)) = calls w @
          [GetCollections, RecreateCollection (COLLECTION e) (VECTOR_SIZE e) Cosine,
           CreatePayloadIndex (COLLECTION e) ''conversation_id'' ''keyword'',
           CreatePayloadIndex (COLLECTION e) ''ts'' ''integer''] \<and>
      collections (snd (QdrantMemory_ensure_collection e w)) =
          (COLLECTION e, VECTOR_SIZE e, Cosine) # collections w \<and>
      QdrantMemory_ensure_collection e (snd (QdrantMemory_ensure_collection e w)) =
          (Inr (), (snd (QdrantMemory_ensure_collection e w))
                     \<lparr>calls := calls (snd (QdrantMemory_ensure_collection e w)) @ [GetCollections]\<rparr>))"
proof (intro conjI impI)
  assume ex: "COLLECTION e \<in> set (map fst (collections w))"
  from ingestor_ensure_existing[OF ex]
  show "\<exists>r. ingestor_ensure_collection e w = (r, w\<lparr>calls := calls w @ [GetCollections]\<rparr>)" .
  from QdrantMemory_ensure_existing[OF ex]
  show "\<exists>r. QdrantMemory_ensure_collection e w = (r, w\<lparr>calls := calls w @ [GetCollections]\<rparr>)" .
next
  assume a: "COLLECTION e \<notin> set (map fst (collections w)) \<and> (\<forall>c. \<not> store_rejects e c)"
  then have ab: "COLLECTION e \<notin> set (map fst (collections w))" and acc: "\<forall>c. \<not> store_rejects e c"
    by simp_all
  note i = ingestor_ensure_fresh[OF ab acc]
  note q = QdrantMemory_ensure_fresh[OF ab acc]
  show "calls (snd (ingestor_ensure_collection e w)) = calls w @
          [GetCollections, RecreateCollection (COLLECTION e) (VECTOR_SIZE e) Cosine,
           CreatePayloadIndex (COLLECTION e) ''conversation_id'' ''keyword'',
           CreatePayloadIndex (COLLECTION e) ''ts'' ''integer'']"
    by (rule i(2))
  show "collections (snd (ingestor_ensure_collection e w)) =
          (COLLECTION e, VECTOR_SIZE e, Cosine) # collections w"
    by (rule i(3))
  show "calls (snd (QdrantMemory_ensure_collection e w)) = calls w @
          [GetCollections, RecreateCollection (COLLECTION e) (VECTOR_SIZE e) Cosine,
           CreatePayloadIndex (COLLECTION e) ''conversation_id'' ''keyword'',
           CreatePayloadIndex (COLLECTION e) ''ts'' ''integer'']"
    by (rule q(2))
  show "collections (snd (QdrantMemory_ensure_collection e w)) =
          (COLLECTION e, VECTOR_SIZE e, Cosine) # collections w"
    by (rule q(3))
  from i(3) have "COLLECTION e \<in> set (map fst (collections (snd (ingestor_ensure_collection e w))))"
    by simp
  with acc show "ingestor_ensure_collection e (snd (ingestor_ensure_collection e w)) =
          (Inr (), (snd (ingestor_ensure_collection e w))
                     \<lparr>calls := calls (snd (ingestor_ensure_collection e w)) @ [GetCollections]\<rparr>)"
    by (simp add: ingestor_ensure_collection_def get_collections_def issue_def Let_def)
  from q(3) have "COLLECTION e \<in> set (map fst (collections (snd (QdrantMemory_ensure_collection e w))))"
    by simp
  with acc show "QdrantMemory_ensure_collection e (snd (QdrantMemory_ensure_collection e w)) =
          (Inr (), (snd (QdrantMemory_ensure_collection e w))
                     \<lparr>calls := calls (snd (QdrantMemory_ensure_collection e w)) @ [GetCollections]\<rparr>)"
    by (auto simp: QdrantMemory_ensure_collection_def get_collections_def issue_def Let_def list_ex_iff)
qed


theorem C7_ensure_collection_idempotent_witness:
  "collections (snd (QdrantMemory_ensure_collection (example_env\<lparr>VECTOR_SIZE := 768\<rparr>)
                       (fresh_world\<lparr>collections := [(''memories'', 384, Euclid)]\<rparr>)))
     = [(''memories'', 384, Euclid)]
   \<and> calls (snd (QdrantMemory_ensure_collection (example_env\<lparr>VECTOR_SIZE := 768\<rparr>)
                       (fresh_world\<lparr>collections := [(''memories'', 384, Euclid)]\<rparr>)))
     = [GetCollections]
   \<and> calls (snd (ingestor_ensure_collection example_env fresh_world))
     = [GetCollections, RecreateCollection ''memories'' 384 Cosine,
        CreatePayloadIndex ''memories'' ''conversation_id'' ''keyword'',
        CreatePayloadIndex ''memories'' ''ts'' ''integer'']
   \<and> calls (snd (ingestor_ensure_collection example_env
                   (snd (ingestor_ensure_collection example_env fresh_world))))
     = [GetCollections, RecreateCollection ''memories'' 384 Cosine,
        CreatePayloadIndex ''memories'' ''conversation_id'' ''keyword'',
        CreatePayloadIndex ''memories'' ''ts'' ''integer'', GetCollections]"
proof -
  let ?e = "example_env\<lparr>VECTOR_SIZE := 768\<rparr>"
  let ?w = "fresh_world\<lparr>collections := [(''memories'', 384, Euclid)]\<rparr>"
  have ex: "COLLECTION ?e \<in> set (map fst (collections ?w))"
    by (simp add: example_env_def)
  have ab: "COLLECTION example_env \<notin> set (map fst (collections fresh_world))"
    by (simp add: fresh_world_def)
  have acc: "\<forall>c. \<not> store_rejects example_env c"
    by (simp add: example_env_def accept_all_def)
  from C7_ensure_collection_idempotent[of ?e ?w] ex obtain r where
    "QdrantMemory_ensure_collection ?e ?w = (r, ?w\<lparr>calls := calls ?w @ [GetCollections]\<rparr>)"
    by blast
  then have a: "collections (snd (QdrantMemory_ensure_collection ?e ?w)) = [(''memories'', 384, Euclid)]"
    and b: "calls (snd (QdrantMemory_ensure_collection ?e ?w)) = [GetCollections]"
    by (simp_all add: fresh_world_def)
  from C7_ensure_collection_idempotent[of example_env fresh_world] ab acc have
    c1: "calls (snd (ingestor_ensure_collection example_env fresh_world)) = calls fresh_world @
          [GetCollections, RecreateCollection (COLLECTION example_env) (VECTOR_SIZE example_env) Cosine,
           CreatePayloadIndex (COLLECTION example_env) ''conversation_id'' ''keyword'',
           CreatePayloadIndex (COLLECTION example_env) ''ts'' ''integer'']" and
    c2: "ingestor_ensure_collection example_env (snd (ingestor_ensure_collection example_env fresh_world)) =
          (Inr (), (snd (ingestor_ensure_collection example_env fresh_world))
                     \<lparr>calls := calls (snd (ingestor_ensure_collection example_env fresh_world)) @ [GetCollections]\<rparr>)"
    by blast+
  from c1 have c: "calls (snd (ingestor_ensure_collection example_env fresh_world))
     = [GetCollections, RecreateCollection ''memories'' 384 Cosine,
        CreatePayloadIndex ''memories'' ''conversation_id'' ''keyword'',
        CreatePayloadIndex ''memories'' ''ts'' ''integer'']"
    by (simp add: fresh_world_def example_env_def)
  from c2 c have d: "calls (snd (ingestor_ensure_collection example_env
                   (snd (ingestor_ensure_collection example_env fresh_world))))
     = [GetCollections, RecreateCollection ''memories'' 384 Cosine,
        CreatePayloadIndex ''memories'' ''conversation_id'' ''keyword'',
        CreatePayloadIndex ''memories'' ''ts'' ''integer'', GetCollections]"
    by simp
  from a b c d show ?thesis by blast
qed

end
